theory Spec2Isabelle
  imports Complex_Main "HOL-Library.Multiset"
begin

section \<open>Runtime model\<close>

text \<open>
  The program is Python. Exceptions are values: every function that can raise returns
  \<open>exn + 'a\<close>, with \<open>Inl\<close> carrying the class of the exception raised.
  \<^item> \<open>ValueError\<close> is raised explicitly by \<open>parse_card\<close>;
  \<^item> \<open>TypeError\<close> is what \<open>list(None)\<close> raises in \<open>best_hand\<close>;
  \<^item> \<open>IndexError\<close> is a list subscript out of range;
  \<^item> \<open>ZeroDivisionError\<close> is a true division by zero.
\<close>

datatype exn = ValueError | TypeError | IndexError | ZeroDivisionError

text \<open>
  Card tokens are strings of 8-bit characters. \<open>str.upper()\<close> on one such character
  changes the 26 ASCII lower-case letters and nothing else that could land in the rank
  or suit alphabets.
\<close>

definition upper :: "char \<Rightarrow> char" where
  "upper c =
     (case map_of (zip ''abcdefghijklmnopqrstuvwxyz'' ''ABCDEFGHIJKLMNOPQRSTUVWXYZ'') c of
        Some u \<Rightarrow> u
      | None \<Rightarrow> c)"

text \<open>\<open>s.index(c)\<close> for a character that occurs in \<open>s\<close> (its callers check that first).\<close>

fun str_index :: "string \<Rightarrow> char \<Rightarrow> nat" where
  "str_index [] c = 0"
| "str_index (d # ds) c = (if c = d then 0 else Suc (str_index ds c))"

section \<open>Card model (hand\_rank.py, lines 7--41)\<close>

definition ranks_str :: string where
  "ranks_str = ''..23456789TJQKA''"

definition suits_str :: string where
  "suits_str = ''HSCD''"

definition get_rank_value :: "char \<Rightarrow> int" where
  "get_rank_value rank_char =
     (if rank_char \<in> set ranks_str then int (str_index ranks_str rank_char) else 0)"

fun parse_card :: "string \<Rightarrow> exn + (int \<times> char)" where
  "parse_card [c0, c1] =
     (let first = upper c0; second = upper c1 in
      if first \<in> set suits_str \<and> second \<in> set ranks_str
        then Inr (get_rank_value second, first)
      else if first \<in> set ranks_str \<and> second \<in> set suits_str
        then Inr (get_rank_value first, second)
      else Inl ValueError)"
| "parse_card card_str = Inl ValueError"

section \<open>Hand classifier (hand\_rank.py, lines 43--88)\<close>

text \<open>
  A score is the Python tuple \<open>(category, tiebreak list)\<close>. Tuples and lists compare
  lexicographically: the first position where the two differ decides, and a proper
  prefix is the smaller list.
\<close>

type_synonym score = "int \<times> int list"

fun list_gt :: "int list \<Rightarrow> int list \<Rightarrow> bool" where
  "list_gt [] ys = False"
| "list_gt (x # xs) [] = True"
| "list_gt (x # xs) (y # ys) = (if x = y then list_gt xs ys else y < x)"

definition score_gt :: "score \<Rightarrow> score \<Rightarrow> bool" where
  "score_gt a b = (if fst a = fst b then list_gt (snd a) (snd b) else fst b < fst a)"

text \<open>
  \<open>[parse_card(c)[0] for c in hand]\<close>: the cards are parsed left to right and the
  first malformed token raises.
\<close>

fun parse_cards :: "string list \<Rightarrow> exn + (int \<times> char) list" where
  "parse_cards [] = Inr []"
| "parse_cards (c # cs) =
     (case parse_card c of
        Inl e \<Rightarrow> Inl e
      | Inr p \<Rightarrow> (case parse_cards cs of Inl e \<Rightarrow> Inl e | Inr ps \<Rightarrow> Inr (p # ps)))"

definition is_straight :: "int list \<Rightarrow> bool" where
  "is_straight ranks =
     (if card (set ranks) \<noteq> 5 then False
      else Max (set ranks) - Min (set ranks) = 4 \<or> ranks = [14, 5, 4, 3, 2])"

text \<open>
  \<open>counts = {r: ranks.count(r) for r in ranks}\<close> is a dict: its keys iterate in
  insertion order, that is, in order of first occurrence in \<open>ranks\<close>.
  \<open>with_count ranks n\<close> is \<open>[r for r in counts if counts[r] == n]\<close>.
\<close>

definition count_keys :: "int list \<Rightarrow> int list" where
  "count_keys ranks = rev (remdups (rev ranks))"

definition with_count :: "int list \<Rightarrow> nat \<Rightarrow> int list" where
  "with_count ranks n = filter (\<lambda>r. count_list ranks r = n) (count_keys ranks)"

text \<open>
  \<open>list(set(ranks) - set(three))\<close> lists a set. The order in which a Python set
  iterates is not fixed by the language, so it is a parameter of the model:
  \<open>set_order S\<close> is the list the runtime produces for the set \<open>S\<close>.

  Lines 66--82, the part of \<open>hand_rank\<close> reached when the hand is neither a flush
  nor four of a kind nor a full house:
\<close>

definition low_rank :: "(int set \<Rightarrow> int list) \<Rightarrow> int list \<Rightarrow> score" where
  "low_rank set_order ranks =
     (if is_straight ranks then (4, ranks)
      else
        (let three = with_count ranks 3; two = with_count ranks 2 in
         if three \<noteq> [] then (3, three @ set_order (set ranks - set three))
         else if length two = 2 then (2, rev (sort two) @ set_order (set ranks - set two))
         else if length two = 1 then (1, two @ set_order (set ranks - set two))
         else (0, ranks)))"

definition classify :: "(int set \<Rightarrow> int list) \<Rightarrow> int list \<Rightarrow> char list \<Rightarrow> score" where
  "classify set_order ranks suits =
     (if card (set suits) = 1 then
        (if ranks = [14, 13, 12, 11, 10] then (9, ranks)
         else if is_straight ranks then (8, ranks)
         else (5, ranks))
      else if card (set ranks) = 2 then
        (let four = with_count ranks 4; three = with_count ranks 3; two = with_count ranks 2 in
         if four \<noteq> [] then (7, four @ set_order (set ranks - set four))
         else if three \<noteq> [] \<and> two \<noteq> [] then (6, three @ two)
         else low_rank set_order ranks)
      else low_rank set_order ranks)"

definition hand_rank :: "(int set \<Rightarrow> int list) \<Rightarrow> string list \<Rightarrow> exn + score" where
  "hand_rank set_order hand =
     (case parse_cards hand of
        Inl e \<Rightarrow> Inl e
      | Inr cards \<Rightarrow> Inr (classify set_order (rev (sort (map fst cards))) (map snd cards)))"

text \<open>
  The order CPython gives a set of at most four small non-negative integers that are
  pairwise different modulo 8: an integer hashes to itself, the table has 8 slots, and
  iteration walks the slots. It instantiates \<open>set_order\<close> in concrete evaluations,
  on such sets only: where two members are equal modulo 8 the runtime's probing decides
  and this definition does not follow it.
\<close>

definition slot_order :: "int set \<Rightarrow> int list" where
  "slot_order S = sort_key (\<lambda>v. v mod 8) (sorted_list_of_set S)"

section \<open>Best-hand selector (hand\_rank.py, lines 90--115)\<close>

text \<open>
  \<open>itertools.combinations(cards, k)\<close>: the sublists of length \<open>k\<close>, in lexicographic
  order of positions.
\<close>

fun combinations :: "'a list \<Rightarrow> nat \<Rightarrow> 'a list list" where
  "combinations xs 0 = [[]]"
| "combinations [] (Suc k) = []"
| "combinations (x # xs) (Suc k) = map ((#) x) (combinations xs k) @ combinations xs (Suc k)"

text \<open>
  The loop of \<open>best_hand\<close> over the combinations, on the pair
  \<open>(current_best, current_best_rank)\<close>; \<open>current_best\<close> starts as \<open>None\<close>.
\<close>

fun best_loop ::
  "(int set \<Rightarrow> int list) \<Rightarrow> string list list \<Rightarrow> string list option \<times> score
     \<Rightarrow> exn + (string list option \<times> score)" where
  "best_loop set_order [] st = Inr st"
| "best_loop set_order (combo # rest) st =
     (case hand_rank set_order combo of
        Inl e \<Rightarrow> Inl e
      | Inr rank \<Rightarrow>
          best_loop set_order rest (if score_gt rank (snd st) then (Some combo, rank) else st))"

definition rank_names :: "string list" where
  "rank_names =
     [''High Card'', ''Pair'', ''Two Pair'', ''Three of a Kind'', ''Straight'',
      ''Flush'', ''Full House'', ''Four of a Kind'', ''Straight Flush'', ''Royal Flush'']"

text \<open>A list subscript: a negative index counts from the end, out of range raises.\<close>

definition subscript :: "'a list \<Rightarrow> int \<Rightarrow> exn + 'a" where
  "subscript xs i =
     (if 0 \<le> i \<and> i < int (length xs) then Inr (xs ! nat i)
      else if i < 0 \<and> - int (length xs) \<le> i then Inr (xs ! nat (int (length xs) + i))
      else Inl IndexError)"

record best =
  best_hand_cards :: "string list"
  rank_value :: int
  rank_name :: string
  rank_tuple :: score

text \<open>
  The returned dict is built field by field: \<open>list(current_best)\<close> comes first and
  raises \<open>TypeError\<close> when no combination was seen and \<open>current_best\<close> is still
  \<open>None\<close>.
\<close>

definition best_hand :: "(int set \<Rightarrow> int list) \<Rightarrow> string list \<Rightarrow> exn + best" where
  "best_hand set_order cards =
     (case best_loop set_order (combinations cards 5) (None, (- 1, [])) of
        Inl e \<Rightarrow> Inl e
      | Inr (current_best, current_best_rank) \<Rightarrow>
          (case current_best of
             None \<Rightarrow> Inl TypeError
           | Some combo \<Rightarrow>
               (case subscript rank_names (fst current_best_rank) of
                  Inl e \<Rightarrow> Inl e
                | Inr name \<Rightarrow>
                    Inr \<lparr>best_hand_cards = combo, rank_value = fst current_best_rank,
                         rank_name = name, rank_tuple = current_best_rank\<rparr>)))"

text \<open>
  The same loop keeping the score only, as \<open>compare_hands\<close> and
  \<open>calculate_probability\<close> write it out:
  \<open>r = hand_rank(combo); if r > rank: rank = r\<close>, from \<open>(-1, [])\<close>.
\<close>

fun rank_loop :: "(int set \<Rightarrow> int list) \<Rightarrow> string list list \<Rightarrow> score \<Rightarrow> exn + score" where
  "rank_loop set_order [] acc = Inr acc"
| "rank_loop set_order (combo # rest) acc =
     (case hand_rank set_order combo of
        Inl e \<Rightarrow> Inl e
      | Inr r \<Rightarrow> rank_loop set_order rest (if score_gt r acc then r else acc))"

definition best_rank :: "(int set \<Rightarrow> int list) \<Rightarrow> string list \<Rightarrow> exn + score" where
  "best_rank set_order cards = rank_loop set_order (combinations cards 5) (- 1, [])"

section \<open>Hand comparator (hand\_rank.py, lines 117--151; server.py, lines 41--87)\<close>

definition compare_hands ::
  "(int set \<Rightarrow> int list) \<Rightarrow> string list \<Rightarrow> string list \<Rightarrow> string list
     \<Rightarrow> exn + (int \<times> string)" where
  "compare_hands set_order hand1_cards hand2_cards community_cards =
     (case best_hand set_order (hand1_cards @ community_cards) of
        Inl e \<Rightarrow> Inl e
      | Inr best1 \<Rightarrow>
     (case best_hand set_order (hand2_cards @ community_cards) of
        Inl e \<Rightarrow> Inl e
      | Inr best2 \<Rightarrow>
          if rank_value best2 < rank_value best1 then Inr (1, rank_name best1)
          else if rank_value best1 < rank_value best2 then Inr (2, rank_name best2)
          else
            (case best_rank set_order (hand1_cards @ community_cards) of
               Inl e \<Rightarrow> Inl e
             | Inr rank1 \<Rightarrow>
            (case best_rank set_order (hand2_cards @ community_cards) of
               Inl e \<Rightarrow> Inl e
             | Inr rank2 \<Rightarrow>
                 if score_gt rank1 rank2 then Inr (1, rank_name best1)
                 else if score_gt rank2 rank1 then Inr (2, rank_name best2)
                 else Inr (0, rank_name best1)))))"

text \<open>
  The service methods catch every exception and answer with the status \<open>INTERNAL\<close>;
  \<open>EvaluateHand\<close> answers \<open>INVALID_ARGUMENT\<close> from its own length check. A reply is
  the response message or the status set on the context (the detail text is left out).
\<close>

datatype status = INVALID_ARGUMENT | INTERNAL

datatype 'a reply = Response 'a | Status status

definition EvaluateHand ::
  "(int set \<Rightarrow> int list) \<Rightarrow> string list \<Rightarrow> string list
     \<Rightarrow> (int \<times> string \<times> string list) reply" where
  "EvaluateHand set_order hole_cards community_cards =
     (let all_cards = hole_cards @ community_cards in
      if length all_cards < 5 then Status INVALID_ARGUMENT
      else
        (case best_hand set_order all_cards of
           Inl e \<Rightarrow> Status INTERNAL
         | Inr result \<Rightarrow>
             Response (rank_value result, rank_name result, best_hand_cards result)))"

definition CompareHands ::
  "(int set \<Rightarrow> int list) \<Rightarrow> string list \<Rightarrow> string list \<Rightarrow> string list \<Rightarrow> string list
     \<Rightarrow> (int \<times> string) reply" where
  "CompareHands set_order h1_cards h1_comm h2_cards h2_comm =
     (case best_hand set_order (h1_cards @ h1_comm) of
        Inl e \<Rightarrow> Status INTERNAL
      | Inr best1 \<Rightarrow>
     (case best_hand set_order (h2_cards @ h2_comm) of
        Inl e \<Rightarrow> Status INTERNAL
      | Inr best2 \<Rightarrow>
          if score_gt (rank_tuple best1) (rank_tuple best2) then Response (1, rank_name best1)
          else if score_gt (rank_tuple best2) (rank_tuple best1) then Response (2, rank_name best2)
          else Response (0, rank_name best1)))"

section \<open>Probability estimator (hand\_rank.py, lines 153--203; server.py, lines 89--106)\<close>

text \<open>The deck is built suit by suit, rank by rank, from the tokens \<open>s + r\<close>.\<close>

definition full_deck :: "string list" where
  "full_deck = concat (map (\<lambda>s. map (\<lambda>r. [s, r]) ''23456789TJQKA'') ''HSCD'')"

definition remaining_deck :: "string list \<Rightarrow> string list \<Rightarrow> string list" where
  "remaining_deck my_cards community_cards =
     filter (\<lambda>card. card \<notin> set my_cards \<and> card \<notin> set community_cards) full_deck"

text \<open>\<open>range(n)\<close>: empty when \<open>n\<close> is not positive.\<close>

definition py_range :: "int \<Rightarrow> nat list" where
  "py_range n = [0..<nat n]"

text \<open>
  The slice \<open>xs[i:j]\<close>: a negative bound counts from the end, and both bounds are
  clipped to the list.
\<close>

definition py_slice :: "'a list \<Rightarrow> int \<Rightarrow> int \<Rightarrow> 'a list" where
  "py_slice xs i j =
     (let n = int (length xs);
          clip = (\<lambda>k. if k < 0 then max 0 (k + n) else min k n)
      in take (nat (clip j - clip i)) (drop (nat (clip i)) xs))"

text \<open>
  Dealing two cards to each opponent: the loop over \<open>range(num_players - 1)\<close>, on
  \<open>current_deck_idx\<close>; it returns \<open>opponents_cards\<close> and the index reached.
\<close>

fun deal_opponents :: "string list \<Rightarrow> nat list \<Rightarrow> nat \<Rightarrow> exn + (string list list \<times> nat)" where
  "deal_opponents deck [] idx = Inr ([], idx)"
| "deal_opponents deck (p # ps) idx =
     (if idx + 1 < length deck then
        (case deal_opponents deck ps (idx + 2) of
           Inl e \<Rightarrow> Inl e
         | Inr (hands, idx') \<Rightarrow> Inr ([deck ! idx, deck ! (idx + 1)] # hands, idx'))
      else Inl IndexError)"

fun best_opp_loop ::
  "(int set \<Rightarrow> int list) \<Rightarrow> string list list \<Rightarrow> string list \<Rightarrow> score \<Rightarrow> exn + score" where
  "best_opp_loop set_order [] sim_community best_opp_rank = Inr best_opp_rank"
| "best_opp_loop set_order (opp_hand # rest) sim_community best_opp_rank =
     (case best_rank set_order (opp_hand @ sim_community) of
        Inl e \<Rightarrow> Inl e
      | Inr opp_r \<Rightarrow>
          best_opp_loop set_order rest sim_community
            (if score_gt opp_r best_opp_rank then opp_r else best_opp_rank))"

text \<open>One trial, on the deck as shuffled for it; the state is \<open>(wins, ties)\<close>.\<close>

definition trial ::
  "(int set \<Rightarrow> int list) \<Rightarrow> string list \<Rightarrow> string list \<Rightarrow> string list \<Rightarrow> int
     \<Rightarrow> int \<times> int \<Rightarrow> exn + (int \<times> int)" where
  "trial set_order deck my_cards community_cards num_players st =
     (case deal_opponents deck (py_range (num_players - 1)) 0 of
        Inl e \<Rightarrow> Inl e
      | Inr (opponents_cards, current_deck_idx) \<Rightarrow>
          (let needed_community = 5 - int (length community_cards);
               sim_community = community_cards @
                 py_slice deck (int current_deck_idx) (int current_deck_idx + needed_community)
           in
           case best_rank set_order (my_cards @ sim_community) of
             Inl e \<Rightarrow> Inl e
           | Inr my_rank \<Rightarrow>
               (case best_opp_loop set_order opponents_cards sim_community (- 1, []) of
                  Inl e \<Rightarrow> Inl e
                | Inr best_opp_rank \<Rightarrow>
                    Inr (if score_gt my_rank best_opp_rank then (fst st + 1, snd st)
                         else if my_rank = best_opp_rank then (fst st, snd st + 1)
                         else st))))"

text \<open>
  The trial loop. \<open>random.shuffle(deck)\<close> permutes the deck in place, so the deck is
  part of the loop's state; the random source is the parameter \<open>shuffle\<close>, where
  \<open>shuffle i d\<close> is the deck that the shuffle of trial \<open>i\<close> makes of \<open>d\<close>.
\<close>

fun trials ::
  "(int set \<Rightarrow> int list) \<Rightarrow> (nat \<Rightarrow> string list \<Rightarrow> string list) \<Rightarrow> string list \<Rightarrow> string list
     \<Rightarrow> int \<Rightarrow> nat list \<Rightarrow> string list \<times> int \<times> int \<Rightarrow> exn + (string list \<times> int \<times> int)" where
  "trials set_order shuffle my_cards community_cards num_players [] st = Inr st"
| "trials set_order shuffle my_cards community_cards num_players (i # rest) st =
     (let deck = shuffle i (fst st) in
      case trial set_order deck my_cards community_cards num_players (snd st) of
        Inl e \<Rightarrow> Inl e
      | Inr counts \<Rightarrow>
          trials set_order shuffle my_cards community_cards num_players rest (deck, counts))"

text \<open>
  \<open>a / b\<close> on integers is true division: the exact quotient rounded to a binary64
  float, or \<open>ZeroDivisionError\<close>. Floats are modelled by the rationals they denote
  (\<open>-0.0\<close> is 0), and the rounding is the parameter \<open>fl\<close>.
\<close>

definition truediv :: "(rat \<Rightarrow> rat) \<Rightarrow> int \<Rightarrow> int \<Rightarrow> exn + rat" where
  "truediv fl a b = (if b = 0 then Inl ZeroDivisionError else Inr (fl (of_int a / of_int b)))"

record probability =
  win :: rat
  tie :: rat
  lose :: rat

definition calculate_probability ::
  "(int set \<Rightarrow> int list) \<Rightarrow> (rat \<Rightarrow> rat) \<Rightarrow> (nat \<Rightarrow> string list \<Rightarrow> string list)
     \<Rightarrow> string list \<Rightarrow> string list \<Rightarrow> int \<Rightarrow> int \<Rightarrow> exn + probability" where
  "calculate_probability set_order fl shuffle my_cards community_cards num_players num_simulations =
     (case trials set_order shuffle my_cards community_cards num_players
             (py_range num_simulations) (remaining_deck my_cards community_cards, 0, 0) of
        Inl e \<Rightarrow> Inl e
      | Inr (deck, wins, ties) \<Rightarrow>
          (case truediv fl wins num_simulations of
             Inl e \<Rightarrow> Inl e
           | Inr w \<Rightarrow>
          (case truediv fl ties num_simulations of
             Inl e \<Rightarrow> Inl e
           | Inr t \<Rightarrow>
          (case truediv fl (num_simulations - wins - ties) num_simulations of
             Inl e \<Rightarrow> Inl e
           | Inr l \<Rightarrow> Inr \<lparr>win = w, tie = t, lose = l\<rparr>))))"

text \<open>
  \<open>request.num_simulations or 1000\<close> is the field itself unless it is 0. The field is
  an integer of the request message, whose declaration is not among the sources.
\<close>

definition CalculateProbability ::
  "(int set \<Rightarrow> int list) \<Rightarrow> (rat \<Rightarrow> rat) \<Rightarrow> (nat \<Rightarrow> string list \<Rightarrow> string list)
     \<Rightarrow> string list \<Rightarrow> string list \<Rightarrow> int \<Rightarrow> int \<Rightarrow> (rat \<times> rat \<times> rat) reply" where
  "CalculateProbability set_order fl shuffle hole_cards community_cards num_players num_simulations =
     (case calculate_probability set_order fl shuffle hole_cards community_cards num_players
             (if num_simulations \<noteq> 0 then num_simulations else 1000) of
        Inl e \<Rightarrow> Status INTERNAL
      | Inr result \<Rightarrow> Response (win result, tie result, lose result))"

section \<open>Assumptions on the runtime\<close>

text \<open>
  What the proofs use of binary64 division on quotients between 0 and 1: 0 and 1 are
  floats, the rounded quotient stays between them, and rounding to nearest moves a
  value of that range by at most \<open>2\<^sup>-\<^sup>5\<^sup>3\<close>.
\<close>

definition float_division :: "(rat \<Rightarrow> rat) \<Rightarrow> bool" where
  "float_division fl \<longleftrightarrow>
     fl 0 = 0 \<and> fl 1 = 1 \<and>
     (\<forall>x. 0 \<le> x \<and> x \<le> 1 \<longrightarrow> 0 \<le> fl x \<and> fl x \<le> 1 \<and> \<bar>fl x - x\<bar> \<le> 1 / 2 ^ 53)"

text \<open>A rounding that satisfies it: to the nearest multiple of \<open>2\<^sup>-\<^sup>5\<^sup>3\<close>.\<close>

definition nearest53 :: "rat \<Rightarrow> rat" where
  "nearest53 x = of_int \<lfloor>x * 2 ^ 53 + 1 / 2\<rfloor> / 2 ^ 53"

text \<open>A shuffle permutes the deck.\<close>

definition permutes_deck :: "(nat \<Rightarrow> string list \<Rightarrow> string list) \<Rightarrow> bool" where
  "permutes_deck shuffle \<longleftrightarrow> (\<forall>i d. mset (shuffle i d) = mset d)"

text \<open>A token that \<open>parse_card\<close> accepts.\<close>

definition parses :: "string \<Rightarrow> bool" where
  "parses token = (case parse_card token of Inl e \<Rightarrow> False | Inr c \<Rightarrow> True)"

text \<open>
  The best score of a pool: the score of one of its five-card combinations that no
  other combination's score exceeds.
\<close>

definition best_score :: "(int set \<Rightarrow> int list) \<Rightarrow> string list \<Rightarrow> score \<Rightarrow> bool" where
  "best_score set_order cards r \<longleftrightarrow>
     list_ex (\<lambda>c. hand_rank set_order c = Inr r) (combinations cards 5) \<and>
     list_all (\<lambda>c. case hand_rank set_order c of Inl e \<Rightarrow> True | Inr x \<Rightarrow> \<not> score_gt x r)
       (combinations cards 5)"

section \<open>The classifier as the specification words it\<close>

text \<open>
  The reference for standard poker strength, written from section 4.2 of the
  specification and used only to compare the code against it. Its \<open>ranks\<close> are the
  ranks sorted in descending order; kickers are those ranks with the grouped ranks
  filtered out, and the wheel is reported as the five-high straight 5, 4, 3, 2, 1.
\<close>

definition spec_is_straight :: "int list \<Rightarrow> bool" where
  "spec_is_straight ranks \<longleftrightarrow>
     card (set ranks) = 5 \<and>
     (Max (set ranks) - Min (set ranks) = 4 \<or> ranks = [14, 5, 4, 3, 2])"

definition spec_straight_tiebreak :: "int list \<Rightarrow> int list" where
  "spec_straight_tiebreak ranks = (if ranks = [14, 5, 4, 3, 2] then [5, 4, 3, 2, 1] else ranks)"

definition spec_group :: "int list \<Rightarrow> nat \<Rightarrow> int list" where
  "spec_group ranks n = remdups (filter (\<lambda>r. count_list ranks r = n) ranks)"

definition spec_kickers :: "int list \<Rightarrow> int list \<Rightarrow> int list" where
  "spec_kickers ranks grouped = filter (\<lambda>r. r \<notin> set grouped) ranks"

definition spec_classify :: "int list \<Rightarrow> char list \<Rightarrow> score" where
  "spec_classify ranks suits =
     (let four = spec_group ranks 4; three = spec_group ranks 3; two = spec_group ranks 2 in
      if card (set suits) = 1 then
        (if ranks = [14, 13, 12, 11, 10] then (9, ranks)
         else if spec_is_straight ranks then (8, spec_straight_tiebreak ranks)
         else (5, ranks))
      else if length four = 1 then (7, four @ spec_kickers ranks four)
      else if length three = 1 \<and> length two = 1 then (6, three @ two)
      else if spec_is_straight ranks then (4, spec_straight_tiebreak ranks)
      else if length three = 1 then (3, three @ spec_kickers ranks three)
      else if length two = 2 then (2, two @ spec_kickers ranks two)
      else if length two = 1 then (1, two @ spec_kickers ranks two)
      else (0, ranks))"

definition spec_hand_score :: "string list \<Rightarrow> exn + score" where
  "spec_hand_score hand =
     (case parse_cards hand of
        Inl e \<Rightarrow> Inl e
      | Inr cards \<Rightarrow> Inr (spec_classify (rev (sort (map fst cards))) (map snd cards)))"

section \<open>Facts about the model\<close>

lemmas card_defs = upper_def ranks_str_def suits_str_def get_rank_value_def

lemmas rank_defs =
  hand_rank_def classify_def low_rank_def is_straight_def with_count_def count_keys_def

lemmas spec_defs =
  spec_hand_score_def spec_classify_def spec_is_straight_def spec_straight_tiebreak_def
  spec_group_def spec_kickers_def

subsection \<open>The order on scores\<close>

lemma list_gt_irrefl: "\<not> list_gt xs xs"
  by (induction xs) auto

lemma list_gt_asym: "list_gt xs ys \<Longrightarrow> \<not> list_gt ys xs"
  by (induction xs ys rule: list_gt.induct) (auto split: if_splits)

lemma list_gt_total: "\<not> list_gt xs ys \<Longrightarrow> \<not> list_gt ys xs \<Longrightarrow> xs = ys"
proof (induction xs ys rule: list_gt.induct)
  case (1 ys)
  then show ?case by (cases ys) auto
next
  case (2 x xs)
  then show ?case by simp
next
  case (3 x xs y ys)
  then show ?case by (auto split: if_splits)
qed

lemma list_gt_trans: "list_gt xs ys \<Longrightarrow> list_gt ys zs \<Longrightarrow> list_gt xs zs"
proof (induction xs ys arbitrary: zs rule: list_gt.induct)
  case (1 ys)
  then show ?case by simp
next
  case (2 x xs)
  then show ?case by simp
next
  case (3 x xs y ys)
  then show ?case by (cases zs) (auto split: if_splits)
qed

lemma score_gt_irrefl: "\<not> score_gt a a"
  by (simp add: score_gt_def list_gt_irrefl)

lemma score_gt_asym: "score_gt a b \<Longrightarrow> \<not> score_gt b a"
  by (auto simp: score_gt_def dest: list_gt_asym split: if_splits)

lemma score_gt_total: "\<not> score_gt a b \<Longrightarrow> \<not> score_gt b a \<Longrightarrow> a = b"
  by (cases a; cases b) (auto simp: score_gt_def dest: list_gt_total split: if_splits)

lemma score_gt_trans: "score_gt a b \<Longrightarrow> score_gt b c \<Longrightarrow> score_gt a c"
  by (auto simp: score_gt_def dest: list_gt_trans split: if_splits)

lemma score_gt_category: "fst b < fst a \<Longrightarrow> score_gt a b"
  by (simp add: score_gt_def)

subsection \<open>What the classifier returns\<close>

lemma low_rank_category: "0 \<le> fst (low_rank so ranks) \<and> fst (low_rank so ranks) \<le> 4"
  by (simp add: low_rank_def Let_def)

lemma classify_category: "0 \<le> fst (classify so ranks suits) \<and> fst (classify so ranks suits) \<le> 9"
  using low_rank_category [of so ranks] by (simp add: classify_def Let_def)

lemma parse_card_error: "parse_card token = Inl e \<Longrightarrow> e = ValueError"
  by (induction token rule: parse_card.induct) (auto simp: Let_def split: if_splits)

lemma parse_cards_error: "parse_cards hand = Inl e \<Longrightarrow> e = ValueError"
  by (induction hand) (auto split: sum.splits dest: parse_card_error)

lemma parse_cards_total: "list_all parses hand \<Longrightarrow> \<exists>cards. parse_cards hand = Inr cards"
  by (induction hand) (auto simp: parses_def split: sum.splits)

lemma hand_rank_error: "hand_rank so hand = Inl e \<Longrightarrow> e = ValueError"
  by (auto simp: hand_rank_def split: sum.splits dest: parse_cards_error)

lemma hand_rank_category: "hand_rank so hand = Inr r \<Longrightarrow> 0 \<le> fst r \<and> fst r \<le> 9"
  using classify_category by (auto simp: hand_rank_def split: sum.splits)

lemma hand_rank_total: "list_all parses hand \<Longrightarrow> \<exists>r. hand_rank so hand = Inr r"
  by (auto simp: hand_rank_def dest: parse_cards_total)

lemma hand_rank_beats_start: "hand_rank so hand = Inr r \<Longrightarrow> score_gt r (- 1, [])"
  by (drule hand_rank_category) (simp add: score_gt_def)

subsection \<open>Combinations\<close>

lemma combinations_subset: "c \<in> set (combinations xs k) \<Longrightarrow> set c \<subseteq> set xs"
  by (induction xs k arbitrary: c rule: combinations.induct) fastforce+

lemma combinations_short: "length xs < k \<Longrightarrow> combinations xs k = []"
  by (induction xs k rule: combinations.induct) auto

lemma combinations_nonempty: "k \<le> length xs \<Longrightarrow> combinations xs k \<noteq> []"
  by (induction xs k rule: combinations.induct) auto

lemma combinations_parse:
  "list_all parses xs \<Longrightarrow> c \<in> set (combinations xs k) \<Longrightarrow> list_all parses c"
  using combinations_subset [of c xs k] by (auto simp: list_all_iff)

subsection \<open>The selection loops\<close>

lemma rank_loop_error: "rank_loop so combos acc = Inl e \<Longrightarrow> e = ValueError"
  by (induction combos arbitrary: acc) (auto split: sum.splits dest: hand_rank_error)

lemma rank_loop_total:
  "list_all (list_all parses) combos \<Longrightarrow> \<exists>r. rank_loop so combos acc = Inr r"
proof (induction combos arbitrary: acc)
  case Nil
  then show ?case by simp
next
  case (Cons c combos)
  then obtain r where "hand_rank so c = Inr r"
    using hand_rank_total [of c so] by auto
  with Cons show ?case by simp
qed

text \<open>The loop returns its start value or the score of a combination it saw.\<close>

lemma rank_loop_attained:
  "rank_loop so combos acc = Inr r \<Longrightarrow>
     r = acc \<or> (\<exists>c \<in> set combos. hand_rank so c = Inr r)"
proof (induction combos arbitrary: acc)
  case Nil
  then show ?case by simp
next
  case (Cons c combos)
  then obtain x where x: "hand_rank so c = Inr x"
    by (auto split: sum.splits)
  with Cons.prems have "rank_loop so combos (if score_gt x acc then x else acc) = Inr r"
    by simp
  from Cons.IH [OF this] x show ?case
    by (auto split: if_splits)
qed

text \<open>Nothing it saw, and not its start value, is greater than what it returns.\<close>

lemma rank_loop_start: "rank_loop so combos acc = Inr r \<Longrightarrow> \<not> score_gt acc r"
proof (induction combos arbitrary: acc)
  case Nil
  then show ?case by (simp add: score_gt_irrefl)
next
  case (Cons c combos)
  then obtain x where x: "hand_rank so c = Inr x"
    by (auto split: sum.splits)
  with Cons.prems have loop: "rank_loop so combos (if score_gt x acc then x else acc) = Inr r"
    by simp
  show ?case
  proof (cases "score_gt x acc")
    case True
    with Cons.IH [OF loop] have "\<not> score_gt x r" by simp
    with True show ?thesis
      using score_gt_trans score_gt_total by blast
  next
    case False
    with Cons.IH [OF loop] show ?thesis by simp
  qed
qed

lemma rank_loop_upper:
  "rank_loop so combos acc = Inr r \<Longrightarrow> c \<in> set combos \<Longrightarrow> hand_rank so c = Inr x
     \<Longrightarrow> \<not> score_gt x r"
proof (induction combos arbitrary: acc)
  case Nil
  then show ?case by simp
next
  case (Cons d combos)
  then obtain y where y: "hand_rank so d = Inr y"
    by (auto split: sum.splits)
  with Cons.prems have loop: "rank_loop so combos (if score_gt y acc then y else acc) = Inr r"
    by simp
  show ?case
  proof (cases "c = d")
    case True
    with y Cons.prems have xy: "x = y" by simp
    from rank_loop_start [OF loop] have "\<not> score_gt (if score_gt y acc then y else acc) r" .
    then show ?thesis
    proof (cases "score_gt y acc")
      case True
      then show ?thesis
        using \<open>\<not> score_gt (if score_gt y acc then y else acc) r\<close> xy by simp
    next
      case False
      have "\<not> score_gt acc r"
        using \<open>\<not> score_gt (if score_gt y acc then y else acc) r\<close> False by simp
      with False show ?thesis
        using xy score_gt_trans score_gt_total by blast
    qed
  next
    case False
    with Cons.prems have "c \<in> set combos" by simp
    from Cons.IH [OF loop this Cons.prems(3)] show ?thesis .
  qed
qed

text \<open>\<open>best_loop\<close> is \<open>rank_loop\<close> that also remembers the combination.\<close>

lemma best_loop_rank_loop:
  "rank_loop so combos (snd st) =
     (case best_loop so combos st of Inl e \<Rightarrow> Inl e | Inr st' \<Rightarrow> Inr (snd st'))"
proof (induction combos arbitrary: st)
  case Nil
  then show ?case by simp
next
  case (Cons c combos)
  show ?case
  proof (cases "hand_rank so c")
    case (Inl e)
    then show ?thesis by simp
  next
    case (Inr x)
    let ?st = "if score_gt x (snd st) then (Some c, x) else st"
    have "snd ?st = (if score_gt x (snd st) then x else snd st)" by simp
    with Cons [of ?st] Inr show ?thesis by simp
  qed
qed

lemma best_loop_keeps_some:
  "best_loop so combos (Some c, acc) = Inr (cb, r) \<Longrightarrow> cb \<noteq> None"
  by (induction combos arbitrary: c acc) (auto split: sum.splits if_splits)

lemma best_loop_finds_some:
  "combos \<noteq> [] \<Longrightarrow> best_loop so combos (None, (- 1, [])) = Inr (cb, r) \<Longrightarrow> cb \<noteq> None"
proof (cases combos)
  case Nil
  then show "combos \<noteq> [] \<Longrightarrow> ?thesis" by simp
next
  case (Cons c rest)
  assume loop: "best_loop so combos (None, (- 1, [])) = Inr (cb, r)"
  with Cons obtain x where x: "hand_rank so c = Inr x"
    by (auto split: sum.splits)
  with loop Cons hand_rank_beats_start [OF x]
  have "best_loop so rest (Some c, x) = Inr (cb, r)" by simp
  then show ?thesis by (rule best_loop_keeps_some)
qed

subsection \<open>What \<open>best_hand\<close> returns\<close>

lemma subscript_rank_names:
  "0 \<le> i \<Longrightarrow> i \<le> 9 \<Longrightarrow> subscript rank_names i = Inr (rank_names ! nat i)"
  by (simp add: subscript_def rank_names_def)

lemma best_rank_category:
  assumes "best_rank so cards = Inr r" "combinations cards 5 \<noteq> []"
  shows "0 \<le> fst r \<and> fst r \<le> 9"
proof -
  from assms(1) have loop: "rank_loop so (combinations cards 5) (- 1, []) = Inr r"
    by (simp add: best_rank_def)
  from assms(2) obtain c rest where cs: "combinations cards 5 = c # rest"
    by (cases "combinations cards 5") auto
  with loop obtain x where x: "hand_rank so c = Inr x"
    by (auto split: sum.splits)
  have "\<not> score_gt x r"
    using rank_loop_upper [OF loop _ x] cs by simp
  moreover have "score_gt x (- 1, [])"
    using x by (rule hand_rank_beats_start)
  ultimately have "r \<noteq> (- 1, [])" by auto
  with rank_loop_attained [OF loop] obtain d where "hand_rank so d = Inr r" by auto
  then show ?thesis by (rule hand_rank_category)
qed

lemma best_hand_short: "length cards < 5 \<Longrightarrow> best_hand so cards = Inl TypeError"
  by (simp add: best_hand_def combinations_short)

lemma best_hand_fields:
  assumes "best_hand so cards = Inr b"
  shows "best_rank so cards = Inr (rank_tuple b) \<and> rank_value b = fst (rank_tuple b) \<and>
         subscript rank_names (fst (rank_tuple b)) = Inr (rank_name b)"
proof -
  from assms obtain cb r where
    loop: "best_loop so (combinations cards 5) (None, (- 1, [])) = Inr (cb, r)"
    by (auto simp: best_hand_def split: sum.splits)
  with assms obtain combo name where "cb = Some combo" "subscript rank_names (fst r) = Inr name"
    and b: "b = \<lparr>best_hand_cards = combo, rank_value = fst r, rank_name = name, rank_tuple = r\<rparr>"
    by (auto simp: best_hand_def split: sum.splits option.splits)
  moreover have "best_rank so cards = Inr r"
    using best_loop_rank_loop [of so "combinations cards 5" "(None, (- 1, []))"] loop
    by (simp add: best_rank_def)
  ultimately show ?thesis by simp
qed

lemma best_hand_total:
  assumes "5 \<le> length cards" "list_all parses cards"
  shows "\<exists>b. best_hand so cards = Inr b"
proof -
  have all: "list_all (list_all parses) (combinations cards 5)"
    using assms(2) combinations_parse [of cards _ 5] by (auto simp: list_all_iff)
  then obtain r where r: "rank_loop so (combinations cards 5) (- 1, []) = Inr r"
    using rank_loop_total by blast
  then obtain cb where
    loop: "best_loop so (combinations cards 5) (None, (- 1, [])) = Inr (cb, r)"
    using best_loop_rank_loop [of so "combinations cards 5" "(None, (- 1, []))"]
    by (auto split: sum.splits)
  have ne: "combinations cards 5 \<noteq> []"
    using assms(1) by (rule combinations_nonempty)
  with loop obtain combo where cb: "cb = Some combo"
    using best_loop_finds_some by blast
  have "0 \<le> fst r \<and> fst r \<le> 9"
    using r ne best_rank_category [of so cards r] by (simp add: best_rank_def)
  then have "subscript rank_names (fst r) = Inr (rank_names ! nat (fst r))"
    by (simp add: subscript_rank_names)
  with loop cb show ?thesis
    by (simp add: best_hand_def)
qed

lemma best_hand_error_long:
  assumes "5 \<le> length cards" "best_hand so cards = Inl e"
  shows "e = ValueError"
proof (cases "best_loop so (combinations cards 5) (None, (- 1, []))")
  case (Inl e')
  then have "rank_loop so (combinations cards 5) (- 1, []) = Inl e'"
    using best_loop_rank_loop [of so "combinations cards 5" "(None, (- 1, []))"] by simp
  then have "e' = ValueError" by (rule rank_loop_error)
  with Inl assms(2) show ?thesis by (simp add: best_hand_def)
next
  case (Inr st)
  obtain cb r where st: "st = (cb, r)" by (cases st)
  have ne: "combinations cards 5 \<noteq> []"
    using assms(1) by (rule combinations_nonempty)
  with Inr st obtain combo where cb: "cb = Some combo"
    using best_loop_finds_some by blast
  have "rank_loop so (combinations cards 5) (- 1, []) = Inr r"
    using best_loop_rank_loop [of so "combinations cards 5" "(None, (- 1, []))"] Inr st by simp
  then have "0 \<le> fst r \<and> fst r \<le> 9"
    using ne best_rank_category [of so cards r] by (simp add: best_rank_def)
  then have "subscript rank_names (fst r) = Inr (rank_names ! nat (fst r))"
    by (simp add: subscript_rank_names)
  with Inr st cb assms(2) show ?thesis by (simp add: best_hand_def)
qed

subsection \<open>The selector returns the best score\<close>

lemma best_hand_best_score:
  assumes "best_hand so cards = Inr b"
  shows "best_score so cards (rank_tuple b)"
proof -
  from assms have "\<not> length cards < 5"
    using best_hand_short [of cards so] by auto
  then have ne: "combinations cards 5 \<noteq> []"
    by (simp add: combinations_nonempty)
  from best_hand_fields [OF assms]
  have loop: "rank_loop so (combinations cards 5) (- 1, []) = Inr (rank_tuple b)"
    by (simp add: best_rank_def)
  have "0 \<le> fst (rank_tuple b)"
    using best_rank_category [of so cards "rank_tuple b"] loop ne by (simp add: best_rank_def)
  then have "rank_tuple b \<noteq> (- 1, [])" by auto
  with rank_loop_attained [OF loop]
  have "list_ex (\<lambda>c. hand_rank so c = Inr (rank_tuple b)) (combinations cards 5)"
    by (auto simp: list_ex_iff)
  moreover have "list_all (\<lambda>c. case hand_rank so c of Inl e \<Rightarrow> True
                    | Inr x \<Rightarrow> \<not> score_gt x (rank_tuple b)) (combinations cards 5)"
    using rank_loop_upper [OF loop] by (auto simp: list_all_iff split: sum.splits)
  ultimately show ?thesis by (simp add: best_score_def)
qed

subsection \<open>The rounding to multiples of \<open>2\<^sup>-\<^sup>5\<^sup>3\<close> is a float division\<close>

lemma nearest53_bounds:
  fixes x :: rat
  assumes "0 \<le> x" "x \<le> 1"
  shows "0 \<le> nearest53 x \<and> nearest53 x \<le> 1 \<and> \<bar>nearest53 x - x\<bar> \<le> 1 / 2 ^ 53"
proof -
  define K :: rat where "K = 2 ^ 53"
  define k :: int where "k = \<lfloor>x * K + 1 / 2\<rfloor>"
  have K: "0 < K" "K = of_int (2 ^ 53)" by (simp_all add: K_def)
  have n: "nearest53 x = of_int k / K"
    by (simp add: nearest53_def k_def K_def)
  have lo: "of_int k \<le> x * K + 1 / 2" and hi: "x * K + 1 / 2 < of_int k + 1"
    unfolding k_def by linarith+
  have "0 \<le> x * K" using assms K by simp
  then have "0 \<le> x * K + 1 / 2" by simp
  then have k0: "0 \<le> k" unfolding k_def by (simp only: zero_le_floor)
  have "x * K \<le> K" using assms K by (simp add: mult_left_le_one_le)
  then have "x * K + 1 / 2 < of_int (2 ^ 53 + 1)" using K(2) by simp
  then have "k < 2 ^ 53 + 1" unfolding k_def by (simp only: floor_less_iff)
  then have k1: "of_int k \<le> K" using K(2) by simp
  have d: "\<bar>of_int k - x * K\<bar> \<le> 1 / 2" using lo hi by linarith
  have "of_int k / K - x = (of_int k - x * K) / K" using K(1) by (simp add: field_simps)
  then have "\<bar>of_int k / K - x\<bar> = \<bar>of_int k - x * K\<bar> / K"
    using K(1) by (simp only: abs_divide abs_of_pos)
  also have "\<dots> \<le> (1 / 2) / K"
    using d K(1) by (simp only: divide_right_mono less_imp_le)
  also have "\<dots> \<le> 1 / K" using K(1) by (simp add: field_simps)
  finally have "\<bar>nearest53 x - x\<bar> \<le> 1 / 2 ^ 53" by (simp only: n K_def)
  moreover have "0 \<le> nearest53 x" using k0 K by (simp add: n)
  moreover have "nearest53 x \<le> 1" using k1 K by (simp add: n)
  ultimately show ?thesis by simp
qed

lemma float_division_nearest53: "float_division nearest53"
proof -
  have "\<lfloor>1 / 2 :: rat\<rfloor> = 0" by linarith
  then have "nearest53 0 = 0" by (simp add: nearest53_def)
  moreover have "nearest53 1 = 1"
  proof -
    have "\<lfloor>(2::rat) ^ 53 + 1 / 2\<rfloor> = 2 ^ 53" by (rule floor_unique) simp_all
    then show ?thesis by (simp add: nearest53_def)
  qed
  ultimately show ?thesis
    using nearest53_bounds by (simp add: float_division_def)
qed


subsection \<open>Counting wins and ties\<close>

lemma trial_counts:
  assumes "trial so deck my_cards community_cards num_players st = Inr st'"
  shows "fst st \<le> fst st' \<and> snd st \<le> snd st' \<and> fst st' + snd st' \<le> fst st + snd st + 1"
  using assms by (auto simp: trial_def Let_def split: sum.splits prod.splits if_splits)

lemma trials_counts:
  assumes "trials so shuffle my_cards community_cards num_players rounds st = Inr st'"
  shows "fst (snd st) \<le> fst (snd st') \<and> snd (snd st) \<le> snd (snd st') \<and>
         fst (snd st') + snd (snd st') \<le> fst (snd st) + snd (snd st) + int (length rounds)"
  using assms
proof (induction rounds arbitrary: st)
  case Nil
  then show ?case by simp
next
  case (Cons i rounds)
  let ?deck = "shuffle i (fst st)"
  from Cons.prems obtain counts where
    one: "trial so ?deck my_cards community_cards num_players (snd st) = Inr counts"
    and rest: "trials so shuffle my_cards community_cards num_players rounds (?deck, counts) = Inr st'"
    by (auto simp: Let_def split: sum.splits)
  from trial_counts [OF one] Cons.IH [OF rest] show ?case by auto
qed

lemma calculate_probability_counts:
  assumes "0 < n"
    and "calculate_probability so fl shuffle my_cards community_cards num_players n = Inr p"
  shows "\<exists>wins ties. 0 \<le> wins \<and> 0 \<le> ties \<and> wins + ties \<le> n \<and>
           win p = fl (of_int wins / of_int n) \<and> tie p = fl (of_int ties / of_int n) \<and>
           lose p = fl (of_int (n - wins - ties) / of_int n)"
proof -
  from assms obtain deck wins ties where
    loop: "trials so shuffle my_cards community_cards num_players (py_range n)
             (remaining_deck my_cards community_cards, 0, 0) = Inr (deck, wins, ties)"
    by (auto simp: calculate_probability_def split: sum.splits)
  with assms have p: "p = \<lparr>win = fl (of_int wins / of_int n), tie = fl (of_int ties / of_int n),
                          lose = fl (of_int (n - wins - ties) / of_int n)\<rparr>"
    by (auto simp: calculate_probability_def truediv_def split: sum.splits)
  from trials_counts [OF loop] assms(1) have "0 \<le> wins \<and> 0 \<le> ties \<and> wins + ties \<le> n"
    by (simp add: py_range_def)
  with p show ?thesis by auto
qed

subsection \<open>The deck\<close>

lemma full_deck_length: "length full_deck = 52"
  by (simp add: full_deck_def)

lemma full_deck_distinct: "distinct full_deck"
  by code_simp

lemma full_deck_parses: "list_all parses full_deck"
  by code_simp

lemma remaining_deck_parses: "list_all parses (remaining_deck my_cards community_cards)"
  using full_deck_parses by (simp add: remaining_deck_def list_all_iff)

text \<open>The filter removes at most one deck card per card given.\<close>

lemma remaining_deck_length:
  "52 \<le> length (remaining_deck my_cards community_cards) + length my_cards + length community_cards"
proof -
  let ?known = "set my_cards \<union> set community_cards"
  let ?gone = "filter (\<lambda>c. c \<in> ?known) full_deck"
  have "remaining_deck my_cards community_cards = filter (\<lambda>c. c \<notin> ?known) full_deck"
    by (simp add: remaining_deck_def)
  then have "length (remaining_deck my_cards community_cards) + length ?gone = 52"
    using sum_length_filter_compl [of "\<lambda>c. c \<notin> ?known" full_deck]
    by (simp add: full_deck_length)
  moreover have "length ?gone = card (set ?gone)"
    using full_deck_distinct distinct_card [of ?gone] distinct_filter [of full_deck] by simp
  moreover have "card (set ?gone) \<le> card ?known"
    by (rule card_mono) auto
  moreover have "card ?known \<le> length my_cards + length community_cards"
    using card_Un_le [of "set my_cards" "set community_cards"]
      card_length [of my_cards] card_length [of community_cards] by linarith
  ultimately show ?thesis by linarith
qed

lemma py_slice_subset: "set (py_slice xs i j) \<subseteq> set xs"
proof -
  have "set (take n (drop m xs)) \<subseteq> set xs" for n m
    using set_take_subset [of n "drop m xs"] set_drop_subset [of m xs] by blast
  then show ?thesis by (simp add: py_slice_def Let_def)
qed

lemma py_slice_from_start:
  "0 \<le> k \<Longrightarrow> length (py_slice xs 0 k) = min (nat k) (length xs)"
  by (auto simp: py_slice_def Let_def min_def)

subsection \<open>A trial without opponents\<close>

lemma best_rank_of_pool:
  assumes "5 \<le> length cards" "list_all parses cards"
  shows "\<exists>r. best_rank so cards = Inr r \<and> score_gt r (- 1, [])"
proof -
  have "list_all (list_all parses) (combinations cards 5)"
    using assms(2) combinations_parse [of cards _ 5] by (auto simp: list_all_iff)
  from rank_loop_total [OF this, of so "(- 1, [])"]
  obtain r where r: "best_rank so cards = Inr r"
    by (auto simp: best_rank_def)
  have "combinations cards 5 \<noteq> []"
    using assms(1) by (rule combinations_nonempty)
  with r have "0 \<le> fst r"
    using best_rank_category by blast
  then have "score_gt r (- 1, [])"
    by (simp add: score_gt_def)
  with r show ?thesis by blast
qed

lemma pool_length:
  assumes "52 \<le> length deck + length my_cards + length community_cards"
  shows "5 \<le> length (my_cards @ community_cards @
                 py_slice deck 0 (0 + (5 - int (length community_cards))))"
proof (cases "5 \<le> length community_cards")
  case True
  then show ?thesis by simp
next
  case False
  then have "length (py_slice deck 0 (0 + (5 - int (length community_cards))))
      = min (5 - length community_cards) (length deck)"
    by (simp add: py_slice_from_start nat_diff_distrib')
  with assms False show ?thesis by (simp add: min_def)
qed

lemma trial_alone:
  assumes "list_all parses my_cards" "list_all parses community_cards" "list_all parses deck"
    and "52 \<le> length deck + length my_cards + length community_cards"
  shows "trial so deck my_cards community_cards 1 st = Inr (fst st + 1, snd st)"
proof -
  let ?sim = "community_cards @ py_slice deck 0 (0 + (5 - int (length community_cards)))"
  have "list_all parses (my_cards @ ?sim)"
    using assms(1-3) py_slice_subset [of deck 0 "0 + (5 - int (length community_cards))"]
    by (auto simp: list_all_iff)
  moreover have "5 \<le> length (my_cards @ ?sim)"
    using assms(4) by (rule pool_length)
  ultimately obtain r where "best_rank so (my_cards @ ?sim) = Inr r" "score_gt r (- 1, [])"
    using best_rank_of_pool by blast
  then show ?thesis
    by (simp add: trial_def py_range_def)
qed

lemma trials_alone:
  assumes "list_all parses my_cards" "list_all parses community_cards"
    and "permutes_deck shuffle"
    and "list_all parses (fst st)"
    and "52 \<le> length (fst st) + length my_cards + length community_cards"
  shows "\<exists>deck. trials so shuffle my_cards community_cards 1 rounds st
           = Inr (deck, fst (snd st) + int (length rounds), snd (snd st))"
  using assms(4,5)
proof (induction rounds arbitrary: st)
  case Nil
  then show ?case by (cases st) simp
next
  case (Cons i rounds)
  let ?deck = "shuffle i (fst st)"
  from assms(3) have m: "mset ?deck = mset (fst st)"
    by (simp add: permutes_deck_def)
  then have "set ?deck = set (fst st)" "length ?deck = length (fst st)"
    using mset_eq_setD mset_eq_length by blast+
  with Cons.prems have d: "list_all parses ?deck"
    "52 \<le> length ?deck + length my_cards + length community_cards"
    by (simp_all add: list_all_iff)
  from trial_alone [OF assms(1,2) d]
  have one: "trial so ?deck my_cards community_cards 1 (snd st)
               = Inr (fst (snd st) + 1, snd (snd st))" .
  from Cons.IH [of "(?deck, fst (snd st) + 1, snd (snd st))"] d
  obtain deck where "trials so shuffle my_cards community_cards 1 rounds
      (?deck, fst (snd st) + 1, snd (snd st))
        = Inr (deck, fst (snd st) + 1 + int (length rounds), snd (snd st))"
    by auto
  with one show ?case by (simp add: Let_def add.assoc)
qed

section \<open>Card parsing\<close>

text \<open>
  Claim C8. The claim says that \<open>parse_card\<close> accepts exactly the two-character tokens
  over the rank alphabet \<open>23456789TJQKA\<close> and the suit alphabet \<open>HSCD\<close>, and raises on
  every other string. The code tests rank membership against the padded string
  \<open>..23456789TJQKA\<close>, so the padding character is accepted as a rank: \<open>H.\<close> and
  \<open>.s\<close> parse, to a card of rank 0, instead of raising.
\<close>

theorem parse_card_accepts_padding:
  "parse_card ''H.'' = Inr (0, CHR ''H'') \<and> parse_card ''.s'' = Inr (0, CHR ''S'')"
  by (simp add: card_defs)

section \<open>The wheel and the kickers\<close>

text \<open>
  Claim C1. The claim says that the wheel (ranks 14, 5, 4, 3, 2) scores strictly lower
  than a six-high straight of the same category. The classifier returns the sorted
  ranks as the tiebreak of every straight, the wheel included, so the wheel's tiebreak
  starts with the ace and the wheel scores strictly higher than the six-high straight,
  as a straight and as a straight flush.
\<close>

theorem wheel_outranks_six_high:
  "hand_rank so [''H2'', ''S3'', ''H4'', ''H5'', ''HA''] = Inr (4, [14, 5, 4, 3, 2]) \<and>
   hand_rank so [''H2'', ''S3'', ''H4'', ''H5'', ''H6''] = Inr (4, [6, 5, 4, 3, 2]) \<and>
   score_gt (4, [14, 5, 4, 3, 2]) (4, [6, 5, 4, 3, 2]) \<and>
   hand_rank so [''HA'', ''H2'', ''H3'', ''H4'', ''H5''] = Inr (8, [14, 5, 4, 3, 2]) \<and>
   hand_rank so [''H2'', ''H3'', ''H4'', ''H5'', ''H6''] = Inr (8, [6, 5, 4, 3, 2]) \<and>
   score_gt (8, [14, 5, 4, 3, 2]) (8, [6, 5, 4, 3, 2])"
  by (simp add: rank_defs card_defs score_gt_def card_insert_if)

text \<open>
  Claim C2. The claim says that the kickers of a pair, two pair, three or four of a
  kind are listed in strictly descending order, never in the order of an unordered
  collection. The code lists them as \<open>list(set(ranks) - set(two))\<close>: for a pair of
  aces with kickers 9, 5, 2 the tiebreak is the ace followed by whatever order the
  runtime gives the set \<open>{2, 5, 9}\<close>, which under CPython's slot order is 9, 2, 5.
\<close>

theorem pair_kickers_follow_set_order:
  "hand_rank so [''HA'', ''SA'', ''H9'', ''H5'', ''D2''] = Inr (1, 14 # so {2, 5, 9}) \<and>
   slot_order {2, 5, 9} = [9, 2, 5]"
  by (simp add: rank_defs card_defs card_insert_if insert_commute insert_Diff_if slot_order_def)

section \<open>The score order against poker strength\<close>

text \<open>
  Claim C3. The claim says that the order on scores agrees with standard poker
  strength: the stronger of two hands always scores strictly higher. Two hands show
  that the code's order does not. A king-high straight is stronger than the wheel, and
  the code scores the wheel higher, because its tiebreak starts with the ace. A pair of
  aces with kickers 9, 5, 2 is stronger than one with kickers 9, 4, 3, and under
  CPython's slot order the code lists the kickers as 9, 2, 5 and 9, 3, 4 and scores the
  second hand higher.
\<close>

theorem score_order_against_poker_strength:
  "spec_hand_score [''HA'', ''S2'', ''D3'', ''C4'', ''H5''] = Inr (4, [5, 4, 3, 2, 1]) \<and>
   spec_hand_score [''H9'', ''ST'', ''DJ'', ''CQ'', ''HK''] = Inr (4, [13, 12, 11, 10, 9]) \<and>
   score_gt (4, [13, 12, 11, 10, 9]) (4, [5, 4, 3, 2, 1]) \<and>
   hand_rank so [''HA'', ''S2'', ''D3'', ''C4'', ''H5''] = Inr (4, [14, 5, 4, 3, 2]) \<and>
   hand_rank so [''H9'', ''ST'', ''DJ'', ''CQ'', ''HK''] = Inr (4, [13, 12, 11, 10, 9]) \<and>
   score_gt (4, [14, 5, 4, 3, 2]) (4, [13, 12, 11, 10, 9]) \<and>
   spec_hand_score [''HA'', ''SA'', ''H9'', ''H5'', ''D2''] = Inr (1, [14, 9, 5, 2]) \<and>
   spec_hand_score [''DA'', ''CA'', ''S9'', ''S4'', ''C3''] = Inr (1, [14, 9, 4, 3]) \<and>
   score_gt (1, [14, 9, 5, 2]) (1, [14, 9, 4, 3]) \<and>
   hand_rank slot_order [''HA'', ''SA'', ''H9'', ''H5'', ''D2''] = Inr (1, [14, 9, 2, 5]) \<and>
   hand_rank slot_order [''DA'', ''CA'', ''S9'', ''S4'', ''C3''] = Inr (1, [14, 9, 3, 4]) \<and>
   score_gt (1, [14, 9, 3, 4]) (1, [14, 9, 2, 5])"
  by (simp add: spec_defs rank_defs card_defs score_gt_def card_insert_if insert_commute
      insert_Diff_if slot_order_def)

section \<open>Pools of fewer than five cards\<close>

text \<open>
  What \<open>EvaluateHand\<close> does with a short pool: its own length check answers
  \<open>INVALID_ARGUMENT\<close>, exactly when the pool has fewer than five cards, before
  \<open>best_hand\<close> is called.
\<close>

lemma evaluate_hand_guard:
  "(EvaluateHand so hole_cards community_cards = Status INVALID_ARGUMENT)
     = (length (hole_cards @ community_cards) < 5)"
  by (auto simp: EvaluateHand_def Let_def split: sum.splits)

text \<open>
  Claim C4. The claim says that the selector, given fewer than five cards, fails with
  an insufficient-cards error that is distinct from every other failure, and with no
  other exception. \<open>best_hand\<close> has no such check: on four cards the loop sees no
  combination, \<open>current_best\<close> is still \<open>None\<close> and \<open>list(None)\<close> raises
  \<open>TypeError\<close>. \<open>EvaluateHand\<close> guards the call and answers \<open>INVALID_ARGUMENT\<close> for
  this pool; \<open>CompareHands\<close> calls \<open>best_hand\<close> unguarded and answers \<open>INTERNAL\<close>,
  the status it also gives a malformed token.
\<close>

theorem selector_short_pool_is_type_error:
  "\<forall>so. best_hand so [''HA'', ''HK'', ''HQ'', ''HJ''] = Inl TypeError \<and>
     CompareHands so [''HA'', ''HK''] [''HQ'', ''HJ''] [''SA'', ''SK''] [''SQ'', ''SJ'', ''ST'']
       = Status INTERNAL \<and>
     CompareHands so [''HA'', ''HK''] [''HQ'', ''HJ'', ''XX''] [''SA'', ''SK''] [''SQ'', ''SJ'', ''ST'']
       = Status INTERNAL \<and>
     EvaluateHand so [''HA'', ''HK''] [''HQ'', ''HJ''] = Status INVALID_ARGUMENT"
proof (intro allI conjI)
  fix so :: "int set \<Rightarrow> int list"
  show short: "best_hand so [''HA'', ''HK'', ''HQ'', ''HJ''] = Inl TypeError"
    by (simp add: best_hand_short)
  then show "CompareHands so [''HA'', ''HK''] [''HQ'', ''HJ''] [''SA'', ''SK''] [''SQ'', ''SJ'', ''ST'']
       = Status INTERNAL"
    by (simp add: CompareHands_def)
  have "hand_rank so [''HA'', ''HK'', ''HQ'', ''HJ'', ''XX''] = Inl ValueError"
    by (simp add: hand_rank_def card_defs)
  then have "best_hand so [''HA'', ''HK'', ''HQ'', ''HJ'', ''XX''] = Inl ValueError"
    by (simp add: best_hand_def eval_nat_numeral)
  then show "CompareHands so [''HA'', ''HK''] [''HQ'', ''HJ'', ''XX''] [''SA'', ''SK''] [''SQ'', ''SJ'', ''ST'']
       = Status INTERNAL"
    by (simp add: CompareHands_def)
  show "EvaluateHand so [''HA'', ''HK''] [''HQ'', ''HJ''] = Status INVALID_ARGUMENT"
    by (simp add: evaluate_hand_guard)
qed

section \<open>The comparator's answer\<close>

text \<open>
  Claim C9. For two pools of at least five well-formed tokens each, both best hands
  exist, each carries the best score of its pool, and \<open>CompareHands\<close> answers 1 iff
  the first score is strictly greater, 2 iff the second is, 0 iff they are equal,
  with the category name of the winner (of the first hand on a tie, whose category the
  second shares since the scores are equal). \<open>compare_hands\<close>, on a shared board,
  returns the same pair.
\<close>

theorem compare_hands_by_best_score:
  assumes "5 \<le> length (h1 @ c1)" "5 \<le> length (h2 @ c2)"
    and "list_all parses (h1 @ c1)" "list_all parses (h2 @ c2)"
  shows "\<exists>b1 b2 w name.
     best_hand so (h1 @ c1) = Inr b1 \<and> best_score so (h1 @ c1) (rank_tuple b1) \<and>
     best_hand so (h2 @ c2) = Inr b2 \<and> best_score so (h2 @ c2) (rank_tuple b2) \<and>
     CompareHands so h1 c1 h2 c2 = Response (w, name) \<and>
     (w = 1 \<longleftrightarrow> score_gt (rank_tuple b1) (rank_tuple b2)) \<and>
     (w = 2 \<longleftrightarrow> score_gt (rank_tuple b2) (rank_tuple b1)) \<and>
     (w = 0 \<longleftrightarrow> rank_tuple b1 = rank_tuple b2) \<and>
     name = (if w = 2 then rank_name b2 else rank_name b1) \<and>
     subscript rank_names (fst (rank_tuple b1)) = Inr (rank_name b1) \<and>
     subscript rank_names (fst (rank_tuple b2)) = Inr (rank_name b2) \<and>
     (c2 = c1 \<longrightarrow> compare_hands so h1 h2 c1 = Inr (w, name))"
proof -
  obtain b1 where b1: "best_hand so (h1 @ c1) = Inr b1"
    using best_hand_total [OF assms(1) assms(3)] by blast
  obtain b2 where b2: "best_hand so (h2 @ c2) = Inr b2"
    using best_hand_total [OF assms(2) assms(4)] by blast
  note f1 = best_hand_fields [OF b1] and f2 = best_hand_fields [OF b2]
  let ?r1 = "rank_tuple b1" and ?r2 = "rank_tuple b2"
  define w :: int where "w = (if score_gt ?r1 ?r2 then 1 else if score_gt ?r2 ?r1 then 2 else 0)"
  define name where "name = (if w = 2 then rank_name b2 else rank_name b1)"
  have reply: "CompareHands so h1 c1 h2 c2 = Response (w, name)"
    using b1 b2 by (simp add: CompareHands_def w_def name_def)
  have w1: "w = 1 \<longleftrightarrow> score_gt ?r1 ?r2"
    by (simp add: w_def)
  have w2: "w = 2 \<longleftrightarrow> score_gt ?r2 ?r1"
    using score_gt_asym [of ?r1 ?r2] by (auto simp: w_def)
  have w0: "w = 0 \<longleftrightarrow> ?r1 = ?r2"
    using score_gt_total [of ?r1 ?r2] score_gt_irrefl [of ?r1] by (auto simp: w_def)
  have shared: "compare_hands so h1 h2 c1 = Inr (w, name)" if "c2 = c1"
  proof -
    have v: "rank_value b1 = fst ?r1" "rank_value b2 = fst ?r2"
      using f1 f2 by simp_all
    consider "fst ?r2 < fst ?r1" | "fst ?r1 < fst ?r2" | "fst ?r1 = fst ?r2"
      by linarith
    then show ?thesis
    proof cases
      case 1
      then have "score_gt ?r1 ?r2" by (rule score_gt_category)
      with 1 b1 b2 that v show ?thesis
        by (simp add: compare_hands_def w_def name_def)
    next
      case 2
      then have gt: "score_gt ?r2 ?r1" by (rule score_gt_category)
      then have "\<not> score_gt ?r1 ?r2" using score_gt_asym by blast
      with gt 2 b1 b2 that v show ?thesis
        by (simp add: compare_hands_def w_def name_def)
    next
      case 3
      with b1 b2 that v f1 f2 show ?thesis
        by (simp add: compare_hands_def w_def name_def)
    qed
  qed
  show ?thesis
    using b1 b2 reply w1 w2 w0 shared f1 f2 name_def
      best_hand_best_score [OF b1] best_hand_best_score [OF b2]
    by blast
qed

text \<open>
  A run of C9: a pair of aces with a king kicker against a pair of aces with a six, on
  a shared board.
\<close>

theorem compare_hands_by_best_score_witness:
  "5 \<le> length ([''CA'', ''CK''] @ [''SA'', ''S2'', ''S3'']) \<and>
   list_all parses ([''CA'', ''CK''] @ [''SA'', ''S2'', ''S3'']) \<and>
   5 \<le> length ([''DA'', ''D6''] @ [''SA'', ''S2'', ''S3'']) \<and>
   list_all parses ([''DA'', ''D6''] @ [''SA'', ''S2'', ''S3'']) \<and>
   CompareHands slot_order [''CA'', ''CK''] [''SA'', ''S2'', ''S3'']
     [''DA'', ''D6''] [''SA'', ''S2'', ''S3''] = Response (1, ''Pair'') \<and>
   compare_hands slot_order [''CA'', ''CK''] [''DA'', ''D6''] [''SA'', ''S2'', ''S3'']
     = Inr (1, ''Pair'') \<and>
   (\<exists>b1 b2.
     best_hand slot_order ([''CA'', ''CK''] @ [''SA'', ''S2'', ''S3'']) = Inr b1 \<and>
     best_hand slot_order ([''DA'', ''D6''] @ [''SA'', ''S2'', ''S3'']) = Inr b2 \<and>
     score_gt (rank_tuple b1) (rank_tuple b2) \<and> rank_name b1 = ''Pair'')"
proof -
  let ?h1 = "[''CA'', ''CK'']" and ?h2 = "[''DA'', ''D6'']" and ?c = "[''SA'', ''S2'', ''S3'']"
  have p1: "list_all parses (?h1 @ ?c)"
    by (simp add: parses_def card_defs)
  have p2: "list_all parses (?h2 @ ?c)"
    by (simp add: parses_def card_defs)
  have l1: "5 \<le> length (?h1 @ ?c)" by simp
  have l2: "5 \<le> length (?h2 @ ?c)" by simp
  have run: "CompareHands slot_order ?h1 ?c ?h2 ?c = Response (1, ''Pair'')"
    by code_simp
  from compare_hands_by_best_score [OF l1 l2 p1 p2, of slot_order]
  obtain b1 b2 w name where
    b: "best_hand slot_order (?h1 @ ?c) = Inr b1" "best_hand slot_order (?h2 @ ?c) = Inr b2"
    and reply: "CompareHands slot_order ?h1 ?c ?h2 ?c = Response (w, name)"
    and w: "w = 1 \<longleftrightarrow> score_gt (rank_tuple b1) (rank_tuple b2)"
    and name: "name = (if w = 2 then rank_name b2 else rank_name b1)"
    and shared: "compare_hands slot_order ?h1 ?h2 ?c = Inr (w, name)"
    by blast
  from run reply have "w = 1" "name = ''Pair''" by simp_all
  with b w name shared run p1 p2 l1 l2 show ?thesis by auto
qed

section \<open>The estimator's deck and trial count\<close>

text \<open>
  Claim C5. The claim says that the remaining deck is the full deck minus the cards the
  player holds and the known community cards, whichever of the two token orders they
  are written in. The deck is filtered by comparing token strings, and its own tokens
  are suit-first: a player holding the rank-first tokens \<open>2H\<close> and \<open>3H\<close> removes
  nothing, and with the deck in its built order the first opponent is dealt \<open>H2\<close> and
  \<open>H3\<close>, the same two cards.
\<close>

theorem deck_keeps_rank_first_cards:
  "remaining_deck [''2H'', ''3H''] [] = full_deck \<and>
   deal_opponents (remaining_deck [''2H'', ''3H''] []) (py_range (2 - 1)) 0
     = Inr ([[''H2'', ''H3'']], 2) \<and>
   parse_card ''H2'' = parse_card ''2H'' \<and> parse_card ''H3'' = parse_card ''3H''"
  by (simp add: remaining_deck_def full_deck_def py_range_def card_defs)

text \<open>
  Claim C6. The claim says that a trial count that is zero, negative or missing runs
  the default 1000 trials. \<open>request.num_simulations or 1000\<close> replaces 0 only: a count
  of \<open>-5\<close> is passed on, the trial loop runs over the empty \<open>range(-5)\<close>, and the reply
  is \<open>0 / -5\<close>, \<open>0 / -5\<close> and \<open>-5 / -5\<close>, whatever the cards.
\<close>

theorem negative_count_runs_no_trial:
  "trials so shuffle hole_cards community_cards num_players (py_range (- 5)) st = Inr st \<and>
   CalculateProbability so fl shuffle hole_cards community_cards num_players (- 5)
     = Response (fl 0, fl 0, fl 1)"
  by (simp add: py_range_def CalculateProbability_def calculate_probability_def truediv_def)

section \<open>The fractions of a completed simulation\<close>

text \<open>
  Claim C7. Whenever \<open>calculate_probability\<close> returns, for a positive trial count (any
  cards, any number of players), the three fractions lie between 0 and 1 and their sum
  is within \<open>10\<^sup>-\<^sup>9\<close> of 1. They are the rounded quotients of \<open>wins\<close>, of \<open>ties\<close> and
  of \<open>num_simulations - wins - ties\<close> by \<open>num_simulations\<close>: the lose fraction is
  computed by subtraction from the total, and there is no third counter. The floats are
  the rationals they denote, and the division rounds as \<open>float_division\<close> says.
\<close>

theorem fractions_in_range_and_sum_to_one:
  assumes "float_division fl" and "0 < n"
    and "calculate_probability so fl shuffle my_cards community_cards num_players n = Inr p"
  shows "0 \<le> win p \<and> win p \<le> 1 \<and> 0 \<le> tie p \<and> tie p \<le> 1 \<and> 0 \<le> lose p \<and> lose p \<le> 1 \<and>
         \<bar>win p + tie p + lose p - 1\<bar> \<le> 1 / 10 ^ 9 \<and>
         (\<exists>wins ties. 0 \<le> wins \<and> 0 \<le> ties \<and> wins + ties \<le> n \<and>
            win p = fl (of_int wins / of_int n) \<and> tie p = fl (of_int ties / of_int n) \<and>
            lose p = fl (of_int (n - wins - ties) / of_int n))"
proof -
  from calculate_probability_counts [OF assms(2,3)] obtain wins ties where
    c: "0 \<le> wins" "0 \<le> ties" "wins + ties \<le> n"
    and p: "win p = fl (of_int wins / of_int n)" "tie p = fl (of_int ties / of_int n)"
      "lose p = fl (of_int (n - wins - ties) / of_int n)"
    by blast
  define a b d :: rat where "a = of_int wins / of_int n" and "b = of_int ties / of_int n"
    and "d = of_int (n - wins - ties) / of_int n"
  have n: "(0::rat) < of_int n" using assms(2) by simp
  have range: "0 \<le> a \<and> a \<le> 1" "0 \<le> b \<and> b \<le> 1" "0 \<le> d \<and> d \<le> 1"
    using c assms(2) by (simp_all add: a_def b_def d_def)
  have one: "a + b + d = 1"
    using n by (simp add: a_def b_def d_def add_divide_distrib [symmetric])
  from assms(1) have fl: "0 \<le> x \<and> x \<le> 1 \<Longrightarrow> 0 \<le> fl x \<and> fl x \<le> 1 \<and> \<bar>fl x - x\<bar> \<le> 1 / 2 ^ 53" for x
    by (simp add: float_division_def)
  note fa = fl [OF range(1)] and fb = fl [OF range(2)] and fd = fl [OF range(3)]
  have "\<bar>fl a + fl b + fl d - 1\<bar> = \<bar>(fl a - a) + (fl b - b) + (fl d - d)\<bar>"
    using one by simp
  also have "\<dots> \<le> 3 * (1 / 2 ^ 53)"
    using fa fb fd by linarith
  also have "\<dots> \<le> (1::rat) / 10 ^ 9" by simp
  finally have "\<bar>fl a + fl b + fl d - 1\<bar> \<le> 1 / 10 ^ 9" .
  with fa fb fd p c show ?thesis
    unfolding a_def b_def d_def by auto
qed

text \<open>
  A run of C7: three trials against one opponent, each shuffle reversing the deck, with
  the quotients rounded to multiples of \<open>2\<^sup>-\<^sup>5\<^sup>3\<close>. One trial is tied and two are lost;
  neither \<open>1/3\<close> nor \<open>2/3\<close> is returned exactly.
\<close>

theorem fractions_in_range_and_sum_to_one_witness:
  "float_division nearest53 \<and> (0::int) < 3 \<and>
   calculate_probability slot_order nearest53 (\<lambda>i d. rev d) [''HA'', ''HK''] [] 2 3
     = Inr \<lparr>win = 0, tie = 3002399751580331 / 9007199254740992,
            lose = 6004799503160661 / 9007199254740992\<rparr> \<and>
   \<bar>0 + 3002399751580331 / 9007199254740992 + 6004799503160661 / 9007199254740992 - 1\<bar>
     \<le> (1::rat) / 10 ^ 9"
proof -
  have run: "calculate_probability slot_order nearest53 (\<lambda>i d. rev d) [''HA'', ''HK''] [] 2 3
     = Inr \<lparr>win = 0, tie = 3002399751580331 / 9007199254740992,
            lose = 6004799503160661 / 9007199254740992\<rparr>"
    by code_simp
  from fractions_in_range_and_sum_to_one [OF float_division_nearest53 _ run]
  show ?thesis using run float_division_nearest53 by simp
qed

section \<open>The estimator without opponents\<close>

text \<open>
  Claim C10. With \<open>num_players = 1\<close>, well-formed tokens and a positive trial count,
  no opponent is dealt, the best opponent score stays at the start value \<open>(-1, [])\<close>,
  the player's pool always holds at least five cards and its best score has a category
  of at least 0, so every trial is a win: the result is win 1.0, tie 0.0, lose 0.0, and
  not a failure.
\<close>

theorem alone_every_trial_is_a_win:
  assumes "float_division fl" and "permutes_deck shuffle"
    and "list_all parses my_cards" and "list_all parses community_cards"
    and "0 < n"
  shows "calculate_probability so fl shuffle my_cards community_cards 1 n
           = Inr \<lparr>win = 1, tie = 0, lose = 0\<rparr> \<and>
         deal_opponents deck (py_range (1 - 1)) 0 = Inr ([], 0) \<and>
         best_opp_loop so [] sim_community (- 1, []) = Inr (- 1, [])"
proof -
  let ?start = "(remaining_deck my_cards community_cards, 0 :: int, 0 :: int)"
  have "list_all parses (fst ?start)"
      "52 \<le> length (fst ?start) + length my_cards + length community_cards"
    using remaining_deck_parses remaining_deck_length by simp_all
  from trials_alone [OF assms(3,4,2) this, of so "py_range n"] assms(5)
  obtain deck where "trials so shuffle my_cards community_cards 1 (py_range n) ?start
      = Inr (deck, n, 0)"
    by (auto simp: py_range_def)
  moreover from assms(1) have "fl 0 = 0" "fl 1 = 1"
    by (simp_all add: float_division_def)
  ultimately show ?thesis
    using assms(5) by (simp add: calculate_probability_def truediv_def py_range_def)
qed

text \<open>
  A run of C10: a thousand trials on a flop, the hole cards written lower-case and
  rank-first.
\<close>

theorem alone_every_trial_is_a_win_witness:
  "float_division nearest53 \<and> permutes_deck (\<lambda>i d. rev d) \<and>
   list_all parses [''ha'', ''KH''] \<and> list_all parses [''S2'', ''7D'', ''CT''] \<and> (0::int) < 1000 \<and>
   calculate_probability slot_order nearest53 (\<lambda>i d. rev d) [''ha'', ''KH'']
     [''S2'', ''7D'', ''CT''] 1 1000 = Inr \<lparr>win = 1, tie = 0, lose = 0\<rparr>"
proof -
  have s: "permutes_deck (\<lambda>i d. rev d)"
    by (simp add: permutes_deck_def)
  have p: "list_all parses [''ha'', ''KH'']" "list_all parses [''S2'', ''7D'', ''CT'']"
    by (simp_all add: parses_def card_defs)
  from alone_every_trial_is_a_win [OF float_division_nearest53 s p, of 1000 slot_order]
  show ?thesis using float_division_nearest53 s p by simp
qed

end
